theory Spec2Isabelle
  imports Main "HOL-Library.Word"
begin

section \<open>The FBX dynamic properties system (FBXProperties.cpp)\<close>

subsection \<open>Tokens, elements and the helpers of the parser layer\<close>

text \<open>
  A token as this file uses it: its text, whether it comes from a binary file, and its
  location (\<open>Offset\<close> is read for binary tokens only, \<open>Line\<close> for text tokens only).
\<close>

record Token =
  StringContents :: string
  IsBinary :: bool
  Offset :: nat
  Line :: nat

type_synonym TokenList = "Token list"

record Element =
  KeyToken :: Token
  Tokens :: TokenList

text \<open>The arguments of a \<open>DeadlyImportError\<close>, kept as the pieces the source passes.\<close>

datatype msg_part = MsgText string | MsgNumber nat

text \<open>
  The \<open>ai_assert\<close>s of the file, by the expression they check. An assertion is
  modelled as checked (as in a debug build): where it fails, the call ends there.
\<close>

datatype assertion =
  Assert_expectedCount_ge_2
| Assert_KeyToken_is_P
| Assert_it_ne_props_end

text \<open>
  Every way a call can fail to return: the exception thrown by \<open>checkTokenCount\<close>, an
  exception thrown by a helper of the parser layer, a failed \<open>ai_assert\<close>, and an access
  \<open>tok[i]\<close> beyond the end of the token vector.
\<close>

datatype error =
  DeadlyImportError "msg_part list"
| ParserError string
| AssertionFailed assertion
| IndexOutOfRange nat

text \<open>
  The machine integers the properties hold: \<open>int\<close> and \<open>int64_t\<close> are read with
  \<open>sint\<close>, \<open>uint64_t\<close> with \<open>unat\<close>.
\<close>

type_synonym int32 = "32 word"
type_synonym uint64 = "64 word"
type_synonym int64 = "64 word"

text \<open>
  The value a \<open>TypedProperty<T>\<close> holds, one constructor per instantiation the file
  makes. \<open>'f\<close> is the type \<open>float\<close>: its values are only carried from the parse helper
  into the property, so the type stays a parameter.
\<close>

datatype 'f Property =
  TypedProperty_string string
| TypedProperty_bool bool
| TypedProperty_int int32
| TypedProperty_uint64 uint64
| TypedProperty_int64 int64
| TypedProperty_aiVector3D 'f 'f 'f
| TypedProperty_float 'f
| TypedProperty_aiColor4D 'f 'f 'f 'f

text \<open>
  The helpers this file calls and does not define (FBXParser, FBXDocumentUtil), taken as
  parameters: the typed reads of a token, which are pure functions of the token (the
  accessors of section 4.1 of the specification), and \<open>GetRequiredScope\<close>, which gives
  the entries of the element's scope in the order \<open>Elements()\<close> iterates them, or
  throws. \<open>DOMWarning\<close> only reports: the constructor below records its warnings in a
  list.
\<close>

record 'f helpers =
  ParseTokenAsString :: "Token \<Rightarrow> string"
  ParseTokenAsInt :: "Token \<Rightarrow> int32"
  ParseTokenAsID :: "Token \<Rightarrow> uint64"
  ParseTokenAsInt64 :: "Token \<Rightarrow> int64"
  ParseTokenAsFloat :: "Token \<Rightarrow> 'f"
  GetRequiredScope :: "Element \<Rightarrow> error + (string \<times> Element) list"

subsection \<open>Sequencing of calls that may throw\<close>

definition and_then :: "error + 'a \<Rightarrow> ('a \<Rightarrow> error + 'b) \<Rightarrow> error + 'b" where
  "and_then m f = (case m of Inl e \<Rightarrow> Inl e | Inr x \<Rightarrow> f x)"

text \<open>\<open>tok[i]\<close> on the token vector; beyond its end the access is an error of its own.\<close>

definition token_at :: "TokenList \<Rightarrow> nat \<Rightarrow> error + Token" where
  "token_at tok i = (if i < length tok then Inr (tok ! i) else Inl (IndexOutOfRange i))"

text \<open>
  \<open>s.c_str()\<close> as \<open>strcmp\<close> reads it: the characters before the first NUL. A
  \<open>std::string\<close> may hold NUL characters; \<open>strcmp\<close> stops at the first.
\<close>

definition c_str :: "string \<Rightarrow> string" where
  "c_str s = takeWhile (\<lambda>c. c \<noteq> CHR 0x00) s"

subsection \<open>checkTokenCount and ReadTypedProperty\<close>

definition checkTokenCount :: "'f helpers \<Rightarrow> TokenList \<Rightarrow> nat \<Rightarrow> error + unit" where
  "checkTokenCount H tok expectedCount =
     (if \<not> 2 \<le> expectedCount then Inl (AssertionFailed Assert_expectedCount_ge_2)
      else if length tok < expectedCount then
        and_then (token_at tok 1) (\<lambda>t1.
          let s = ParseTokenAsString H t1 in
          if IsBinary t1 then
            Inl (DeadlyImportError
              [MsgText ''Not enough tokens for property of type '', MsgText s,
               MsgText '' at offset '', MsgNumber (Offset t1)])
          else
            Inl (DeadlyImportError
              [MsgText ''Not enough tokens for property of type '', MsgText s,
               MsgText '' at line '', MsgNumber (Line t1)]))
      else Inr ())"

definition ReadTypedProperty :: "'f helpers \<Rightarrow> Element \<Rightarrow> error + 'f Property option" where
  "ReadTypedProperty H element =
     (if StringContents (KeyToken element) \<noteq> ''P'' then Inl (AssertionFailed Assert_KeyToken_is_P)
      else
        let tok = Tokens element in
        if length tok < 2 then Inr None
        else
          and_then (token_at tok 1) (\<lambda>t1.
          let s = ParseTokenAsString H t1; cs = c_str s in
          if cs = ''KString'' then
            and_then (checkTokenCount H tok 5) (\<lambda>_.
            and_then (token_at tok 4) (\<lambda>t4.
              Inr (Some (TypedProperty_string (ParseTokenAsString H t4)))))
          else if cs = ''bool'' \<or> cs = ''Bool'' then
            and_then (checkTokenCount H tok 5) (\<lambda>_.
            and_then (token_at tok 4) (\<lambda>t4.
              Inr (Some (TypedProperty_bool (ParseTokenAsInt H t4 \<noteq> 0)))))
          else if cs = ''int'' \<or> cs = ''Int'' \<or> cs = ''enum'' \<or> cs = ''Enum''
                  \<or> cs = ''Integer'' then
            and_then (checkTokenCount H tok 5) (\<lambda>_.
            and_then (token_at tok 4) (\<lambda>t4.
              Inr (Some (TypedProperty_int (ParseTokenAsInt H t4)))))
          else if cs = ''ULongLong'' then
            and_then (checkTokenCount H tok 5) (\<lambda>_.
            and_then (token_at tok 4) (\<lambda>t4.
              Inr (Some (TypedProperty_uint64 (ParseTokenAsID H t4)))))
          else if cs = ''KTime'' then
            and_then (checkTokenCount H tok 5) (\<lambda>_.
            and_then (token_at tok 4) (\<lambda>t4.
              Inr (Some (TypedProperty_int64 (ParseTokenAsInt64 H t4)))))
          else if cs = ''Vector3D'' \<or> cs = ''ColorRGB'' \<or> cs = ''Vector'' \<or> cs = ''Color''
                  \<or> cs = ''Lcl Translation'' \<or> cs = ''Lcl Rotation''
                  \<or> cs = ''Lcl Scaling'' then
            and_then (checkTokenCount H tok 7) (\<lambda>_.
            and_then (token_at tok 4) (\<lambda>t4.
            and_then (token_at tok 5) (\<lambda>t5.
            and_then (token_at tok 6) (\<lambda>t6.
              Inr (Some (TypedProperty_aiVector3D
                (ParseTokenAsFloat H t4) (ParseTokenAsFloat H t5)
                (ParseTokenAsFloat H t6)))))))
          else if cs = ''double'' \<or> cs = ''Number'' \<or> cs = ''float'' \<or> cs = ''Float''
                  \<or> cs = ''FieldOfView'' \<or> cs = ''UnitScaleFactor'' then
            and_then (checkTokenCount H tok 5) (\<lambda>_.
            and_then (token_at tok 4) (\<lambda>t4.
              Inr (Some (TypedProperty_float (ParseTokenAsFloat H t4)))))
          else if cs = ''ColorAndAlpha'' then
            and_then (checkTokenCount H tok 8) (\<lambda>_.
            and_then (token_at tok 4) (\<lambda>t4.
            and_then (token_at tok 5) (\<lambda>t5.
            and_then (token_at tok 6) (\<lambda>t6.
            and_then (token_at tok 7) (\<lambda>t7.
              Inr (Some (TypedProperty_aiColor4D
                (ParseTokenAsFloat H t4) (ParseTokenAsFloat H t5)
                (ParseTokenAsFloat H t6) (ParseTokenAsFloat H t7))))))))
          else Inr None))"

text \<open>
  The calls of \<open>checkTokenCount\<close> that \<open>ReadTypedProperty\<close> makes on an element: the
  arguments at each call site, under the conditions that lead to it.
\<close>

definition checkTokenCount_calls :: "'f helpers \<Rightarrow> Element \<Rightarrow> (TokenList \<times> nat) list" where
  "checkTokenCount_calls H element =
     (if StringContents (KeyToken element) \<noteq> ''P'' then []
      else
        let tok = Tokens element in
        if length tok < 2 then []
        else
          case token_at tok 1 of Inl _ \<Rightarrow> [] | Inr t1 \<Rightarrow>
          let s = ParseTokenAsString H t1; cs = c_str s in
          if cs = ''KString'' then [(tok, 5)]
          else if cs = ''bool'' \<or> cs = ''Bool'' then [(tok, 5)]
          else if cs = ''int'' \<or> cs = ''Int'' \<or> cs = ''enum'' \<or> cs = ''Enum''
                  \<or> cs = ''Integer'' then [(tok, 5)]
          else if cs = ''ULongLong'' then [(tok, 5)]
          else if cs = ''KTime'' then [(tok, 5)]
          else if cs = ''Vector3D'' \<or> cs = ''ColorRGB'' \<or> cs = ''Vector'' \<or> cs = ''Color''
                  \<or> cs = ''Lcl Translation'' \<or> cs = ''Lcl Rotation''
                  \<or> cs = ''Lcl Scaling'' then [(tok, 7)]
          else if cs = ''double'' \<or> cs = ''Number'' \<or> cs = ''float'' \<or> cs = ''Float''
                  \<or> cs = ''FieldOfView'' \<or> cs = ''UnitScaleFactor'' then [(tok, 5)]
          else if cs = ''ColorAndAlpha'' then [(tok, 8)]
          else [])"

subsection \<open>PeekPropertyName and the construction of a table\<close>

definition PeekPropertyName :: "'f helpers \<Rightarrow> Element \<Rightarrow> error + string" where
  "PeekPropertyName H element =
     (if StringContents (KeyToken element) \<noteq> ''P'' then Inl (AssertionFailed Assert_KeyToken_is_P)
      else
        let tok = Tokens element in
        if length tok < 4 then Inr []
        else and_then (token_at tok 0) (\<lambda>t0. Inr (ParseTokenAsString H t0)))"

text \<open>
  The address of a \<open>PropertyTable\<close> object. \<open>templateProps\<close> is a shared pointer to
  another table, or null.
\<close>

type_synonym tid = nat

text \<open>
  \<open>lazyProps\<close> lists the entries of the raw index in the order the container iterates
  them; \<open>find\<close> is \<open>map_of\<close>, and \<open>lazyProps[name] = v\<close> for a name not found adds an
  entry (written at the end: the container type is declared in a header outside this
  file, and nothing below depends on where a new key is placed). \<open>props\<close> maps a name to
  the pointer stored for it, which may be null (\<open>Some None\<close>).
\<close>

record 'f PropertyTable =
  lazyProps :: "(string \<times> Element) list"
  props :: "string \<rightharpoonup> 'f Property option"
  templateProps :: "tid option"
  element :: Element

text \<open>A \<open>DOMWarning\<close>: its message and the element it is about.\<close>

type_synonym diagnostic = "string \<times> Element"

text \<open>
  The loop of the constructor over \<open>scope.Elements()\<close>, with the raw index built so far
  and the warnings given so far.
\<close>

fun scan_elements ::
  "'f helpers \<Rightarrow> (string \<times> Element) list \<Rightarrow> (string \<times> Element) list \<times> diagnostic list
   \<Rightarrow> error + (string \<times> Element) list \<times> diagnostic list" where
  "scan_elements H [] (lazy, warnings) = Inr (lazy, warnings)"
| "scan_elements H ((key, v) # rest) (lazy, warnings) =
     (if key \<noteq> ''P'' then
        scan_elements H rest
          (lazy, warnings @ [(''expected only P elements in property table'', v)])
      else
        case PeekPropertyName H v of
          Inl err \<Rightarrow> Inl err
        | Inr name \<Rightarrow>
            if length name = 0 then
              scan_elements H rest (lazy, warnings @ [(''could not read property name'', v)])
            else
              case map_of lazy name of
                Some _ \<Rightarrow>
                  scan_elements H rest
                    (lazy,
                     warnings @
                       [(''duplicate property name, will hide previous value: '' @ name, v)])
              | None \<Rightarrow> scan_elements H rest (lazy @ [(name, v)], warnings))"

definition PropertyTable_new ::
  "'f helpers \<Rightarrow> Element \<Rightarrow> tid option \<Rightarrow> error + 'f PropertyTable \<times> diagnostic list" where
  "PropertyTable_new H el tp =
     (case GetRequiredScope H el of
        Inl err \<Rightarrow> Inl err
      | Inr elements \<Rightarrow>
          (case scan_elements H elements ([], []) of
             Inl err \<Rightarrow> Inl err
           | Inr (lazy, warnings) \<Rightarrow>
               Inr (\<lparr>lazyProps = lazy, props = Map.empty, templateProps = tp, element = el\<rparr>,
                    warnings)))"

subsection \<open>Get\<close>

text \<open>
  The tables live in a store, since a template table is shared by the tables that name it
  and \<open>Get\<close> on one of them writes the cache of the template.
\<close>

type_synonym 'f store = "tid \<Rightarrow> 'f PropertyTable"

text \<open>
  What a call does besides returning: \<open>Call_Get t\<close> is an activation of \<open>Get\<close> on table
  \<open>t\<close>, \<open>Call_ReadTypedProperty t name\<close> a decode of the raw record of \<open>name\<close> in table
  \<open>t\<close>.
\<close>

datatype event = Call_Get tid | Call_ReadTypedProperty tid string

text \<open>
  A call returns a value and the store it leaves, or throws; either way it has a trace.
\<close>

type_synonym 'f outcome = "(error + 'f Property option \<times> 'f store) \<times> event list"


text \<open>
  The outcome of a call made from inside an activation: \<open>return templateProps->Get(name)\<close>
  runs the callee while the caller is active, and passes its result on.
\<close>

definition nested_in :: "event \<Rightarrow> 'f outcome \<Rightarrow> 'f outcome" where
  "nested_in ev r = (fst r, ev # snd r)"

text \<open>
  \<open>Get\<close> follows \<open>templateProps\<close> for as long as the name is absent; on a cyclic chain
  that never ends, which is the value \<open>None\<close>.
\<close>

partial_function (option) Get ::
  "'f helpers \<Rightarrow> 'f store \<Rightarrow> tid \<Rightarrow> string \<Rightarrow> 'f outcome option" where
  "Get H st this name =
     (case props (st this) name of
        Some p \<Rightarrow> Some (Inr (p, st), [Call_Get this])
      | None \<Rightarrow>
          (case map_of (lazyProps (st this)) name of
             Some el \<Rightarrow>
               (case ReadTypedProperty H el of
                  Inl err \<Rightarrow> Some (Inl err, [Call_Get this, Call_ReadTypedProperty this name])
                | Inr p \<Rightarrow>
                    (let st' = st(this := (st this)\<lparr>props := (props (st this))(name \<mapsto> p)\<rparr>) in
                     case props (st' this) name of
                       None \<Rightarrow>
                         Some (Inl (AssertionFailed Assert_it_ne_props_end),
                               [Call_Get this, Call_ReadTypedProperty this name])
                     | Some p' \<Rightarrow>
                         Some (Inr (p', st'),
                               [Call_Get this, Call_ReadTypedProperty this name])))
           | None \<Rightarrow>
               (case templateProps (st this) of
                  Some parent \<Rightarrow>
                    Option.bind (Get H st parent name) (\<lambda>r. Some (nested_in (Call_Get this) r))
                | None \<Rightarrow> Some (Inr (None, st), [Call_Get this]))))"

text \<open>The tables a trace activates \<open>Get\<close> on, and the decodes it makes, in order.\<close>

fun get_calls :: "event list \<Rightarrow> tid list" where
  "get_calls [] = []"
| "get_calls (Call_Get t # es) = t # get_calls es"
| "get_calls (Call_ReadTypedProperty t n # es) = get_calls es"

fun decodes :: "event list \<Rightarrow> (tid \<times> string) list" where
  "decodes [] = []"
| "decodes (Call_Get t # es) = decodes es"
| "decodes (Call_ReadTypedProperty t n # es) = (t, n) # decodes es"

text \<open>
  The template chain of a table: the table, its template, the template's template, and so
  on up to a table without template. A chain that is a list is finite, hence acyclic.
\<close>

fun is_chain :: "'f store \<Rightarrow> tid \<Rightarrow> tid list \<Rightarrow> bool" where
  "is_chain st t [] = False"
| "is_chain st t [u] = (t = u \<and> templateProps (st t) = None)"
| "is_chain st t (u # v # c) = (t = u \<and> templateProps (st t) = Some v \<and> is_chain st v (v # c))"

text \<open>
  The levels of a chain that a lookup of \<open>name\<close> visits: up to and including the first
  table that has the name in its cache or in its raw index.
\<close>

fun visited :: "'f store \<Rightarrow> string \<Rightarrow> tid list \<Rightarrow> tid list" where
  "visited st name [] = []"
| "visited st name (t # c) =
     (if props (st t) name = None \<and> map_of (lazyProps (st t)) name = None
      then t # visited st name c else [t])"

subsection \<open>GetUnparsedProperties\<close>

type_synonym 'f DirectPropertyMap = "string \<rightharpoonup> 'f Property"

text \<open>
  The loop over \<open>lazyProps\<close>, with the result built so far and the trace so far. The
  function reads \<open>props\<close> and \<open>lazyProps\<close> and assigns to neither, so it returns no store.
\<close>

fun unparsed_loop ::
  "'f helpers \<Rightarrow> tid \<Rightarrow> (string \<rightharpoonup> 'f Property option) \<Rightarrow> (string \<times> Element) list
   \<Rightarrow> 'f DirectPropertyMap \<Rightarrow> event list
   \<Rightarrow> (error + 'f DirectPropertyMap) \<times> event list" where
  "unparsed_loop H this ps [] result evs = (Inr result, evs)"
| "unparsed_loop H this ps ((name, el) # rest) result evs =
     (if ps name \<noteq> None then unparsed_loop H this ps rest result evs
      else
        case ReadTypedProperty H el of
          Inl err \<Rightarrow> (Inl err, evs @ [Call_ReadTypedProperty this name])
        | Inr None \<Rightarrow>
            unparsed_loop H this ps rest result (evs @ [Call_ReadTypedProperty this name])
        | Inr (Some prop) \<Rightarrow>
            unparsed_loop H this ps rest (result(name \<mapsto> prop))
              (evs @ [Call_ReadTypedProperty this name]))"

definition GetUnparsedProperties ::
  "'f helpers \<Rightarrow> 'f store \<Rightarrow> tid \<Rightarrow> (error + 'f DirectPropertyMap) \<times> event list" where
  "GetUnparsedProperties H st this =
     unparsed_loop H this (props (st this)) (lazyProps (st this)) Map.empty []"

subsection \<open>The decode table of the specification\<close>

text \<open>
  The table of section 4.2 of the specification, row by row: the type tags, the minimum
  token count, and the shape of the value with the token positions it is read from.
\<close>

datatype shape =
  ShString | ShBool | ShInt32 | ShUInt64 | ShInt64 | ShVector3 | ShFloat32 | ShColor4

definition spec_decode_table :: "(string list \<times> nat \<times> shape) list" where
  "spec_decode_table =
     [([''KString''], 5, ShString),
      ([''bool'', ''Bool''], 5, ShBool),
      ([''int'', ''Int'', ''enum'', ''Enum'', ''Integer''], 5, ShInt32),
      ([''ULongLong''], 5, ShUInt64),
      ([''KTime''], 5, ShInt64),
      ([''Vector3D'', ''ColorRGB'', ''Vector'', ''Color'', ''Lcl Translation'',
        ''Lcl Rotation'', ''Lcl Scaling''], 7, ShVector3),
      ([''double'', ''Number'', ''float'', ''Float'', ''FieldOfView'',
        ''UnitScaleFactor''], 5, ShFloat32),
      ([''ColorAndAlpha''], 8, ShColor4)]"

fun spec_value :: "'f helpers \<Rightarrow> shape \<Rightarrow> TokenList \<Rightarrow> 'f Property" where
  "spec_value H ShString tok = TypedProperty_string (ParseTokenAsString H (tok ! 4))"
| "spec_value H ShBool tok = TypedProperty_bool (ParseTokenAsInt H (tok ! 4) \<noteq> 0)"
| "spec_value H ShInt32 tok = TypedProperty_int (ParseTokenAsInt H (tok ! 4))"
| "spec_value H ShUInt64 tok = TypedProperty_uint64 (ParseTokenAsID H (tok ! 4))"
| "spec_value H ShInt64 tok = TypedProperty_int64 (ParseTokenAsInt64 H (tok ! 4))"
| "spec_value H ShVector3 tok =
     TypedProperty_aiVector3D (ParseTokenAsFloat H (tok ! 4)) (ParseTokenAsFloat H (tok ! 5))
       (ParseTokenAsFloat H (tok ! 6))"
| "spec_value H ShFloat32 tok = TypedProperty_float (ParseTokenAsFloat H (tok ! 4))"
| "spec_value H ShColor4 tok =
     TypedProperty_aiColor4D (ParseTokenAsFloat H (tok ! 4)) (ParseTokenAsFloat H (tok ! 5))
       (ParseTokenAsFloat H (tok ! 6)) (ParseTokenAsFloat H (tok ! 7))"

definition supported_tags :: "string list" where
  "supported_tags = concat (map fst spec_decode_table)"

text \<open>The error of section 4.1: the type tag and the location of token 1.\<close>

definition spec_decode_error :: "string \<Rightarrow> Token \<Rightarrow> error" where
  "spec_decode_error s t1 =
     DeadlyImportError
       [MsgText ''Not enough tokens for property of type '', MsgText s,
        MsgText (if IsBinary t1 then '' at offset '' else '' at line ''),
        MsgNumber (if IsBinary t1 then Offset t1 else Line t1)]"

subsection \<open>What the specification says of the tables\<close>

text \<open>
  The nesting of the activations of \<open>Get\<close> in the trace of one call: each is made by
  \<open>return templateProps->Get(name)\<close> from inside the one before it, so their number is the
  depth the call stack reaches.
\<close>

definition frames :: "event list \<Rightarrow> nat" where
  "frames evs = length (get_calls evs)"

text \<open>
  Whether a store differs from another in nothing but cache entries for \<open>name\<close> that
  were absent, in tables that have \<open>name\<close> in their raw index.
\<close>

definition same_but_cache :: "'f store \<Rightarrow> 'f store \<Rightarrow> string \<Rightarrow> bool" where
  "same_but_cache st st' name \<longleftrightarrow>
     (\<forall>t. lazyProps (st' t) = lazyProps (st t) \<and> templateProps (st' t) = templateProps (st t)
          \<and> element (st' t) = element (st t)
          \<and> (\<forall>n. props (st t) n \<noteq> None \<or> n \<noteq> name \<longrightarrow> props (st' t) n = props (st t) n)
          \<and> (map_of (lazyProps (st t)) name = None \<longrightarrow> st' t = st t))"

text \<open>
  The mapping \<open>GetUnparsedProperties\<close> is to return: the names of the raw index that have
  no cache entry and decode to a value, each with that value.
\<close>

definition unparsed_spec :: "'f helpers \<Rightarrow> 'f PropertyTable \<Rightarrow> 'f DirectPropertyMap" where
  "unparsed_spec H t =
     (\<lambda>n. case map_of (lazyProps t) n of
            None \<Rightarrow> None
          | Some el \<Rightarrow>
              if props t n \<noteq> None then None
              else (case ReadTypedProperty H el of Inr (Some prop) \<Rightarrow> Some prop | _ \<Rightarrow> None))"

text \<open>
  The name of a \<open>P\<close> record (empty when it has fewer than four tokens), the usable
  records of a scope with their names, those among them whose name an earlier one has,
  and the warning a duplicate gets.
\<close>

definition property_name :: "'f helpers \<Rightarrow> Element \<Rightarrow> string" where
  "property_name H e = (if length (Tokens e) < 4 then [] else ParseTokenAsString H (Tokens e ! 0))"

definition usable :: "'f helpers \<Rightarrow> (string \<times> Element) list \<Rightarrow> (string \<times> Element) list" where
  "usable H elems =
     [(property_name H e, e). (key, e) \<leftarrow> elems, key = ''P'', property_name H e \<noteq> []]"

fun repeated :: "string set \<Rightarrow> (string \<times> 'a) list \<Rightarrow> (string \<times> 'a) list" where
  "repeated seen [] = []"
| "repeated seen ((n, e) # xs) =
     (if n \<in> seen then (n, e) # repeated seen xs else repeated (insert n seen) xs)"

definition duplicate_warning :: "string \<times> Element \<Rightarrow> diagnostic" where
  "duplicate_warning x =
     (''duplicate property name, will hide previous value: '' @ fst x, snd x)"

subsection \<open>Test data\<close>

text \<open>
  Helpers for the examples: a string token parses to its text, an integer token to 1 when
  its text is \<open>1\<close> and to 0 otherwise, and a float is written as its text.
\<close>

definition H0 :: "string helpers" where
  "H0 = \<lparr>ParseTokenAsString = StringContents,
         ParseTokenAsInt = (\<lambda>t. if StringContents t = ''1'' then 1 else 0),
         ParseTokenAsID = (\<lambda>t. if StringContents t = ''1'' then 1 else 0),
         ParseTokenAsInt64 = (\<lambda>t. if StringContents t = ''1'' then 1 else 0),
         ParseTokenAsFloat = StringContents,
         GetRequiredScope = (\<lambda>_. Inl (ParserError ''expected compound scope''))\<rparr>"

definition text_token :: "string \<Rightarrow> nat \<Rightarrow> Token" where
  "text_token s l = \<lparr>StringContents = s, IsBinary = False, Offset = 0, Line = l\<rparr>"

definition binary_token :: "string \<Rightarrow> nat \<Rightarrow> Token" where
  "binary_token s off = \<lparr>StringContents = s, IsBinary = True, Offset = off, Line = 0\<rparr>"

definition P_text :: "string list \<Rightarrow> Element" where
  "P_text ss = \<lparr>KeyToken = text_token ''P'' 1, Tokens = map (\<lambda>s. text_token s 1) ss\<rparr>"

definition P_binary :: "string list \<Rightarrow> Element" where
  "P_binary ss = \<lparr>KeyToken = binary_token ''P'' 64, Tokens = map (\<lambda>s. binary_token s 64) ss\<rparr>"

text \<open>
  Three tables: table 2 has table 1 as its template, table 1 has table 0. \<open>Custom\<close> has
  an unknown type in table 1 and is a string in table 0; \<open>Broken\<close> in table 2 is an
  \<open>int\<close> with four tokens only.
\<close>

definition node0 :: Element where
  "node0 = \<lparr>KeyToken = text_token ''Properties70'' 1, Tokens = []\<rparr>"

definition table0 :: "string PropertyTable" where
  "table0 =
     \<lparr>lazyProps =
        [(''Color'', P_text [''Color'', ''ColorRGB'', [], ''A'', ''0.8'', ''0.5'', ''0.2'']),
         (''Custom'', P_text [''Custom'', ''KString'', [], ''A'', ''hello''])],
      props = Map.empty, templateProps = None, element = node0\<rparr>"

definition table1 :: "string PropertyTable" where
  "table1 =
     \<lparr>lazyProps = [(''Custom'', P_text [''Custom'', ''MyType'', [], ''A''])],
      props = Map.empty, templateProps = Some 0, element = node0\<rparr>"

definition table2 :: "string PropertyTable" where
  "table2 =
     \<lparr>lazyProps =
        [(''Broken'', P_text [''Broken'', ''int'', [], ''A'']),
         (''Visibility'', P_text [''Visibility'', ''bool'', [], ''A'', ''1''])],
      props = Map.empty, templateProps = Some 1, element = node0\<rparr>"

definition three_tables :: "string store" where
  "three_tables = (\<lambda>t. if t = 2 then table2 else if t = 1 then table1 else table0)"

text \<open>
  The children of a node: a property, an element that is no property, a property record
  that is too short to have a name, and a second record for the name of the first.
\<close>

definition children0 :: "(string \<times> Element) list" where
  "children0 =
     [(''P'', P_text [''Color'', ''ColorRGB'', [], ''A'', ''0.8'', ''0.5'', ''0.2'']),
      (''Q'', \<lparr>KeyToken = text_token ''Q'' 2, Tokens = []\<rparr>),
      (''P'', P_text [''Short'', ''int'']),
      (''P'', P_text [''Color'', ''ColorRGB'', [], ''A'', ''0'', ''0'', ''0''])]"

definition H1 :: "string helpers" where
  "H1 = H0\<lparr>GetRequiredScope := (\<lambda>_. Inr children0)\<rparr>"


section \<open>The decoder\<close>

lemmas decoder_defs =
  ReadTypedProperty_def checkTokenCount_def and_then_def token_at_def Let_def


lemma c_str_supported:
  "s \<in> set supported_tags \<Longrightarrow> c_str s = s"
  by (auto simp: supported_tags_def spec_decode_table_def c_str_def)

text \<open>
  C1. An element with key \<open>P\<close> whose type tag (token 1) stands in a row of the decode
  table, and that has at least the row's minimum number of tokens, decodes to the value
  of the row's shape, read from tokens 4 and up.
\<close>

theorem ReadTypedProperty_supported:
  assumes "StringContents (KeyToken e) = ''P''"
    and "(tags, n, sh) \<in> set spec_decode_table"
    and "ParseTokenAsString H (Tokens e ! 1) \<in> set tags"
    and "n \<le> length (Tokens e)"
  shows "ReadTypedProperty H e = Inr (Some (spec_value H sh (Tokens e)))"
proof -
  from assms(2,3,4) show ?thesis
    unfolding spec_decode_table_def
    apply (simp only: set_simps insert_iff empty_iff prod.inject simp_thms)
    apply (elim disjE conjE;
           simp only: set_simps insert_iff empty_iff simp_thms;
           (elim disjE)?;
           simp add: decoder_defs assms(1) c_str_def)
    done
qed

theorem ReadTypedProperty_supported_witness:
  "ReadTypedProperty H0
     (P_text [''Lcl Rotation'', ''Vector3D'', [], ''A'', ''10.0'', ''20.0'', ''30.0''])
   = Inr (Some (TypedProperty_aiVector3D ''10.0'' ''20.0'' ''30.0''))"
  using ReadTypedProperty_supported
    [of "P_text [''Lcl Rotation'', ''Vector3D'', [], ''A'', ''10.0'', ''20.0'', ''30.0'']"
        "[''Vector3D'', ''ColorRGB'', ''Vector'', ''Color'', ''Lcl Translation'',
          ''Lcl Rotation'', ''Lcl Scaling'']" 7 ShVector3 H0]
  by (simp add: spec_decode_table_def P_text_def text_token_def H0_def)

text \<open>The examples of section 8 of the specification.\<close>

lemma ReadTypedProperty_examples:
  "ReadTypedProperty H0 (P_text [''Visibility'', ''bool'', [], ''A'', ''1''])
     = Inr (Some (TypedProperty_bool True))"
  "ReadTypedProperty H0 (P_text [''Weight'', ''double'', [], ''A'', ''0.5''])
     = Inr (Some (TypedProperty_float ''0.5''))"
  "ReadTypedProperty H0 (P_text [''Custom'', ''MyType'', [], ''A'']) = Inr None"
  by (simp_all add: decoder_defs c_str_def P_text_def text_token_def H0_def)

lemma ReadTypedProperty_too_few_tokens:
  assumes "StringContents (KeyToken e) = ''P''"
    and "(tags, n, sh) \<in> set spec_decode_table"
    and "ParseTokenAsString H (Tokens e ! 1) \<in> set tags"
    and "2 \<le> length (Tokens e)"
    and "length (Tokens e) < n"
  shows "ReadTypedProperty H e =
           Inl (spec_decode_error (ParseTokenAsString H (Tokens e ! 1)) (Tokens e ! 1))"
proof -
  from assms(2,3,4,5) show ?thesis
    unfolding spec_decode_table_def
    apply (simp only: set_simps insert_iff empty_iff prod.inject simp_thms)
    apply (elim disjE conjE;
           simp only: set_simps insert_iff empty_iff simp_thms;
           (elim disjE)?;
           simp add: decoder_defs assms(1) c_str_def spec_decode_error_def)
    done
qed

lemma ReadTypedProperty_unknown_tag:
  assumes "StringContents (KeyToken e) = ''P''"
    and "2 \<le> length (Tokens e)"
    and "c_str (ParseTokenAsString H (Tokens e ! 1)) \<notin> set supported_tags"
  shows "ReadTypedProperty H e = Inr None"
  using assms
  by (simp add: supported_tags_def spec_decode_table_def decoder_defs)

text \<open>
  C5, as amended. An element with key \<open>P\<close> and fewer than two tokens decodes to
  nothing, and so does one whose type tag, read up to its first NUL character (which is
  what \<open>strcmp\<close> on \<open>c_str()\<close> compares), is in no row of the decode table. Neither raises.
\<close>

theorem ReadTypedProperty_empty:
  assumes "StringContents (KeyToken e) = ''P''"
    and "length (Tokens e) < 2
         \<or> c_str (ParseTokenAsString H (Tokens e ! 1)) \<notin> set supported_tags"
  shows "ReadTypedProperty H e = Inr None"
proof (cases "length (Tokens e) < 2")
  case True
  then show ?thesis by (simp add: decoder_defs assms(1))
next
  case False
  with assms show ?thesis by (intro ReadTypedProperty_unknown_tag) auto
qed

theorem ReadTypedProperty_empty_witness:
  "ReadTypedProperty H0 (P_text [''Custom'', ''MyType'', [], ''A'']) = Inr None"
  using ReadTypedProperty_empty [of "P_text [''Custom'', ''MyType'', [], ''A'']" H0]
  by (simp add: supported_tags_def spec_decode_table_def P_text_def text_token_def H0_def
      c_str_def)

text \<open>
  C5 as stated fails: the tag \<open>int\<close> followed by a NUL character is not one of the
  supported tags, yet the element decodes to an integer, since \<open>strcmp\<close> stops at the NUL.
\<close>

theorem ReadTypedProperty_unsupported_tag_counterexample:
  "StringContents (KeyToken (P_binary [''Count'', ''int'' @ [CHR 0x00], [], ''A'', ''1'']))
     = ''P''
   \<and> ParseTokenAsString H0
       (Tokens (P_binary [''Count'', ''int'' @ [CHR 0x00], [], ''A'', ''1'']) ! 1)
     \<notin> set supported_tags
   \<and> ReadTypedProperty H0 (P_binary [''Count'', ''int'' @ [CHR 0x00], [], ''A'', ''1''])
     = Inr (Some (TypedProperty_int 1))"
  by (simp add: supported_tags_def spec_decode_table_def P_binary_def binary_token_def H0_def
      decoder_defs c_str_def)

lemma checkTokenCount_safe:
  assumes "2 \<le> n" and "2 \<le> length tok"
  shows "checkTokenCount H tok n = Inr ()
         \<or> checkTokenCount H tok n = Inl (spec_decode_error (ParseTokenAsString H (tok ! 1)) (tok ! 1))"
  using assms
  by (simp add: checkTokenCount_def and_then_def token_at_def Let_def spec_decode_error_def)

text \<open>
  C10. Every call of \<open>checkTokenCount\<close> that \<open>ReadTypedProperty\<close> makes has
  \<open>expectedCount \<ge> 2\<close> and a token list of at least two tokens, so the call either passes
  or throws its \<open>DeadlyImportError\<close>; and \<open>ReadTypedProperty\<close> never ends in the failed
  assertion of \<open>checkTokenCount\<close> nor in an access beyond the end of the token list.
\<close>

theorem checkTokenCount_precondition:
  "(\<forall>(tok, n) \<in> set (checkTokenCount_calls H e).
       2 \<le> n \<and> 2 \<le> length tok
       \<and> (checkTokenCount H tok n = Inr ()
          \<or> checkTokenCount H tok n
              = Inl (spec_decode_error (ParseTokenAsString H (tok ! 1)) (tok ! 1))))
   \<and> ReadTypedProperty H e \<noteq> Inl (AssertionFailed Assert_expectedCount_ge_2)
   \<and> (\<forall>i. ReadTypedProperty H e \<noteq> Inl (IndexOutOfRange i))"
proof (intro conjI)
  show "\<forall>(tok, n) \<in> set (checkTokenCount_calls H e).
       2 \<le> n \<and> 2 \<le> length tok
       \<and> (checkTokenCount H tok n = Inr ()
          \<or> checkTokenCount H tok n
              = Inl (spec_decode_error (ParseTokenAsString H (tok ! 1)) (tok ! 1)))"
  proof (clarify, intro conjI)
    fix tok n assume c: "(tok, n) \<in> set (checkTokenCount_calls H e)"
    then show n: "2 \<le> n"
      by (simp add: checkTokenCount_calls_def token_at_def Let_def split: if_splits)
    from c show l: "2 \<le> length tok"
      by (simp add: checkTokenCount_calls_def token_at_def Let_def split: if_splits)
    from n l show "checkTokenCount H tok n = Inr ()
          \<or> checkTokenCount H tok n
              = Inl (spec_decode_error (ParseTokenAsString H (tok ! 1)) (tok ! 1))"
      by (rule checkTokenCount_safe)
  qed
  show "ReadTypedProperty H e \<noteq> Inl (AssertionFailed Assert_expectedCount_ge_2)"
    by (simp add: decoder_defs)
  show "\<forall>i. ReadTypedProperty H e \<noteq> Inl (IndexOutOfRange i)"
    by (simp add: decoder_defs)
qed

theorem checkTokenCount_precondition_witness:
  "checkTokenCount_calls H0 (P_text [''Lcl Rotation'', ''Vector3D'', [], ''A'', ''10.0''])
     = [(Tokens (P_text [''Lcl Rotation'', ''Vector3D'', [], ''A'', ''10.0'']), 7)]
   \<and> checkTokenCount H0 (Tokens (P_text [''Lcl Rotation'', ''Vector3D'', [], ''A'', ''10.0''])) 7
     = Inl (spec_decode_error ''Vector3D'' (text_token ''Vector3D'' 1))"
  using checkTokenCount_precondition
    [of H0 "P_text [''Lcl Rotation'', ''Vector3D'', [], ''A'', ''10.0'']"]
  by (simp add: checkTokenCount_calls_def token_at_def P_text_def text_token_def H0_def
      c_str_def checkTokenCount_def and_then_def spec_decode_error_def)

section \<open>Lookup\<close>

lemma Get_hit:
  "props (st this) name = Some p \<Longrightarrow> Get H st this name = Some (Inr (p, st), [Call_Get this])"
  by (subst Get.simps) simp

lemma Get_decode:
  assumes "props (st this) name = None" and "map_of (lazyProps (st this)) name = Some el"
  shows "Get H st this name =
    Some (case ReadTypedProperty H el of
            Inl err \<Rightarrow> (Inl err, [Call_Get this, Call_ReadTypedProperty this name])
          | Inr p \<Rightarrow>
              (Inr (p, st(this := (st this)\<lparr>props := (props (st this))(name \<mapsto> p)\<rparr>)),
               [Call_Get this, Call_ReadTypedProperty this name]))"
  using assms by (subst Get.simps) (simp split: sum.split)

lemma Get_delegate:
  assumes "props (st this) name = None" and "map_of (lazyProps (st this)) name = None"
    and "templateProps (st this) = Some parent"
  shows "Get H st this name = map_option (nested_in (Call_Get this)) (Get H st parent name)"
  using assms by (subst Get.simps) (cases "Get H st parent name"; simp)

lemma Get_miss:
  assumes "props (st this) name = None" and "map_of (lazyProps (st this)) name = None"
    and "templateProps (st this) = None"
  shows "Get H st this name = Some (Inr (None, st), [Call_Get this])"
  using assms by (subst Get.simps) simp

lemma Get_invariant:
  assumes "Get H st this name = Some r"
  shows "(\<forall>p st'. fst r = Inr (p, st') \<longrightarrow>
            same_but_cache st st' name
            \<and> Get H st' this name = Some (Inr (p, st'), map Call_Get (get_calls (snd r)))
            \<and> (\<forall>t n. (t, n) \<in> set (decodes (snd r)) \<longrightarrow> n = name \<and> props (st' t) name = Some p))
         \<and> length (decodes (snd r)) \<le> 1"
  using assms
proof (induct rule: Get.raw_induct [rotated 1, consumes 1, case_names step])
  case (step G H st this name r)
  note 1 = step
  show ?case
  proof (cases "props (st this) name")
    case (Some p)
    with 1(2) show ?thesis
      by (auto simp: same_but_cache_def Get_hit)
  next
    case None
    note cache = this
    show ?thesis
    proof (cases "map_of (lazyProps (st this)) name")
      case (Some el)
      with cache 1(2) show ?thesis
        by (auto simp: same_but_cache_def Get_hit Let_def split: sum.splits)
    next
      case None
      note raw = this
      show ?thesis
      proof (cases "templateProps (st this)")
        case None
        with cache raw 1(2) show ?thesis
          by (auto simp: same_but_cache_def Get_miss)
      next
        case (Some parent)
        with cache raw 1(2) obtain r0 where
          r0: "G H st parent name = Some r0" and r: "r = nested_in (Call_Get this) r0"
          by (auto simp: bind_eq_Some_conv)
        from 1(1)[OF r0] have
          ih: "\<forall>p st'. fst r0 = Inr (p, st') \<longrightarrow>
                same_but_cache st st' name
                \<and> Get H st' parent name = Some (Inr (p, st'), map Call_Get (get_calls (snd r0)))
                \<and> (\<forall>t n. (t, n) \<in> set (decodes (snd r0)) \<longrightarrow> n = name \<and> props (st' t) name = Some p)"
          and d: "length (decodes (snd r0)) \<le> 1" by auto
        have "Get H st' this name = Some (Inr (p, st'), map Call_Get (get_calls (snd r)))"
          if "fst r = Inr (p, st')" for p st'
        proof -
          from that r have f: "fst r0 = Inr (p, st')" by (simp add: nested_in_def)
          with ih have s: "same_but_cache st st' name"
            and g: "Get H st' parent name = Some (Inr (p, st'), map Call_Get (get_calls (snd r0)))"
            by auto
          from s raw have "st' this = st this" by (simp add: same_but_cache_def)
          with cache raw Some g show ?thesis
            by (simp add: Get_delegate r nested_in_def)
        qed
        moreover have "same_but_cache st st' name" if "fst r = Inr (p, st')" for p st'
          using that r ih by (simp add: nested_in_def)
        moreover have "\<forall>t n. (t, n) \<in> set (decodes (snd r)) \<longrightarrow> n = name \<and> props (st' t) name = Some p"
          if "fst r = Inr (p, st')" for p st'
          using that r ih by (auto simp: nested_in_def)
        moreover have "length (decodes (snd r)) \<le> 1"
          using d r by (simp add: nested_in_def)
        ultimately show ?thesis by blast
      qed
    qed
  qed
qed

lemma Get_chain:
  assumes "is_chain st this c"
  shows "\<exists>out evs. Get H st this name = Some (out, evs) \<and> get_calls evs = visited st name c"
  using assms
proof (induction st this c rule: is_chain.induct)
  case (1 st t)
  then show ?case by simp
next
  case (2 st t u)
  then have t: "u = t" "templateProps (st t) = None" by auto
  show ?case
  proof (cases "props (st t) name")
    case (Some p)
    then show ?thesis by (simp add: Get_hit t)
  next
    case None
    then show ?thesis
      by (cases "map_of (lazyProps (st t)) name")
         (auto simp: Get_miss Get_decode t split: sum.split)
  qed
next
  case (3 st t u v c)
  then have t: "u = t" "templateProps (st t) = Some v" and ch: "is_chain st v (v # c)"
    by auto
  from 3(1)[OF ch] obtain out evs where
    g: "Get H st v name = Some (out, evs)" and v: "get_calls evs = visited st name (v # c)"
    by blast
  show ?case
  proof (cases "props (st t) name")
    case (Some p)
    then show ?thesis by (simp add: Get_hit t)
  next
    case None
    then show ?thesis
      using g v
      by (cases "map_of (lazyProps (st t)) name")
         (auto simp: Get_delegate Get_decode t nested_in_def split: sum.split)
  qed
qed

lemma is_chain_unique: "is_chain st t c \<Longrightarrow> is_chain st t c' \<Longrightarrow> c = c'"
proof (induction st t c arbitrary: c' rule: is_chain.induct)
  case (1 st t)
  then show ?case by simp
next
  case (2 st t u)
  then show ?case by (cases c'; cases "tl c'") auto
next
  case (3 st t u v c)
  then show ?case by (cases c'; cases "tl c'") auto
qed

lemma is_chain_from:
  "is_chain st t c \<Longrightarrow> u \<in> set c \<Longrightarrow> \<exists>c'. is_chain st u c' \<and> length c' \<le> length c"
proof (induction st t c rule: is_chain.induct)
  case (1 st t)
  then show ?case by simp
next
  case (2 st t v)
  then show ?case by (intro exI[of _ "[v]"]) auto
next
  case (3 st t w v c)
  show ?case
  proof (cases "u = t")
    case True
    with 3(2) show ?thesis by (intro exI[of _ "w # v # c"]) auto
  next
    case False
    with 3 obtain c' where "is_chain st u c'" "length c' \<le> length (v # c)" by auto
    then show ?thesis by (intro exI[of _ c']) auto
  qed
qed

lemma is_chain_distinct: "is_chain st t c \<Longrightarrow> distinct c"
proof (induction st t c rule: is_chain.induct)
  case (1 st t)
  then show ?case by simp
next
  case (2 st t u)
  then show ?case by simp
next
  case (3 st t u v c)
  then have ch: "is_chain st v (v # c)" and d: "distinct (v # c)" and u: "u = t" by auto
  have "t \<notin> set (v # c)"
  proof
    assume "t \<in> set (v # c)"
    from is_chain_from[OF ch this] obtain c' where
      c': "is_chain st t c'" "length c' \<le> length (v # c)" by blast
    from is_chain_unique[OF c'(1) 3(2)] c'(2) show False by simp
  qed
  with d u show ?case by simp
qed

lemmas example_defs =
  three_tables_def table0_def table1_def table2_def node0_def

lemma decode_Color:
  "ReadTypedProperty H0 (P_text [''Color'', ''ColorRGB'', [], ''A'', ''0.8'', ''0.5'', ''0.2''])
     = Inr (Some (TypedProperty_aiVector3D ''0.8'' ''0.5'' ''0.2''))"
  by (simp add: decoder_defs c_str_def P_text_def text_token_def H0_def)

lemma decode_Custom:
  "ReadTypedProperty H0 (P_text [''Custom'', ''MyType'', [], ''A'']) = Inr None"
  by (simp add: decoder_defs c_str_def P_text_def text_token_def H0_def)

lemma decode_Custom_template:
  "ReadTypedProperty H0 (P_text [''Custom'', ''KString'', [], ''A'', ''hello''])
     = Inr (Some (TypedProperty_string ''hello''))"
  by (simp add: decoder_defs c_str_def P_text_def text_token_def H0_def)

lemma decode_Visibility:
  "ReadTypedProperty H0 (P_text [''Visibility'', ''bool'', [], ''A'', ''1''])
     = Inr (Some (TypedProperty_bool True))"
  by (simp add: decoder_defs c_str_def P_text_def text_token_def H0_def)

lemma decode_Broken:
  "ReadTypedProperty H0 (P_text [''Broken'', ''int'', [], ''A''])
     = Inl (DeadlyImportError
         [MsgText ''Not enough tokens for property of type '', MsgText ''int'',
          MsgText '' at line '', MsgNumber 1])"
  by (simp add: decoder_defs c_str_def P_text_def text_token_def H0_def)

lemma chain_three_tables: "is_chain three_tables 2 [2, 1, 0]"
  by (simp add: example_defs)



lemma Get_Missing_2:
  "Get H0 three_tables 2 ''Missing''
     = Some (Inr (None, three_tables), [Call_Get 2, Call_Get 1, Call_Get 0])"
proof -
  have 2: "Get H0 three_tables 2 ''Missing''
      = map_option (nested_in (Call_Get 2)) (Get H0 three_tables 1 ''Missing'')"
    by (rule Get_delegate) (simp_all add: example_defs)
  have 1: "Get H0 three_tables 1 ''Missing''
      = map_option (nested_in (Call_Get 1)) (Get H0 three_tables 0 ''Missing'')"
    by (rule Get_delegate) (simp_all add: example_defs)
  have 0: "Get H0 three_tables 0 ''Missing'' = Some (Inr (None, three_tables), [Call_Get 0])"
    by (rule Get_miss) (simp_all add: example_defs)
  show ?thesis
    unfolding 2 1 0 by (simp add: nested_in_def)
qed






lemma Get_skips_levels:
  assumes "is_chain st t c" and "k < length c"
    and "\<forall>m<k. props (st (c ! m)) name = None \<and> map_of (lazyProps (st (c ! m))) name = None"
  shows "map_option fst (Get H st t name) = map_option fst (Get H st (c ! k) name)"
  using assms
proof (induction st t c arbitrary: k rule: is_chain.induct)
  case (1 st t)
  then show ?case by simp
next
  case (2 st t u)
  then show ?case by simp
next
  case (3 st t u v c)
  show ?case
  proof (cases k)
    case 0
    with 3(2) show ?thesis by simp
  next
    case (Suc k')
    from 3(2) have t: "u = t" "templateProps (st t) = Some v" and ch: "is_chain st v (v # c)"
      by auto
    from 3(4) Suc t have here: "props (st t) name = None" "map_of (lazyProps (st t)) name = None"
      by auto
    from 3(4) Suc have rest:
      "\<forall>m<k'. props (st ((v # c) ! m)) name = None
             \<and> map_of (lazyProps (st ((v # c) ! m))) name = None"
      by auto
    from 3(3) Suc have "k' < length (v # c)" by simp
    have "Get H st t name = map_option (nested_in (Call_Get t)) (Get H st v name)"
      by (rule Get_delegate) (fact here t(2))+
    with 3(1)[OF ch \<open>k' < length (v # c)\<close> rest] Suc show ?thesis
      by (simp add: option.map_comp comp_def nested_in_def)
  qed
qed

text \<open>
  C3. For a name that a table has neither in its cache nor in its raw index: with a
  template, \<open>Get\<close> returns what \<open>Get\<close> on the template returns (the same value or error
  and the same store, the trace being that of the template's call inside this one), and
  the table itself is left as it was; along a chain whose first \<open>k\<close> tables lack the
  name, it returns what \<open>Get\<close> on the table at level \<open>k\<close> returns; without a template
  it returns empty and changes nothing.
\<close>

theorem Get_delegates_to_template:
  assumes "props (st this) name = None" and "map_of (lazyProps (st this)) name = None"
  shows "(\<forall>parent. templateProps (st this) = Some parent \<longrightarrow>
            Get H st this name = map_option (nested_in (Call_Get this)) (Get H st parent name)
            \<and> map_option fst (Get H st this name) = map_option fst (Get H st parent name))
    \<and> (\<forall>p st' evs. Get H st this name = Some (Inr (p, st'), evs) \<longrightarrow> st' this = st this)
    \<and> (\<forall>c k. is_chain st this c \<longrightarrow> k < length c \<longrightarrow>
          (\<forall>m<k. props (st (c ! m)) name = None \<and> map_of (lazyProps (st (c ! m))) name = None) \<longrightarrow>
          map_option fst (Get H st this name) = map_option fst (Get H st (c ! k) name))
    \<and> (templateProps (st this) = None \<longrightarrow>
          Get H st this name = Some (Inr (None, st), [Call_Get this]))"
proof (intro conjI allI impI)
  fix parent assume "templateProps (st this) = Some parent"
  with assms
  show d: "Get H st this name = map_option (nested_in (Call_Get this)) (Get H st parent name)"
    by (intro Get_delegate)
  show "map_option fst (Get H st this name) = map_option fst (Get H st parent name)"
    unfolding d by (simp add: option.map_comp comp_def nested_in_def)
next
  fix p st' evs assume "Get H st this name = Some (Inr (p, st'), evs)"
  from Get_invariant[OF this] assms(2) show "st' this = st this"
    by (simp add: same_but_cache_def)
next
  fix c k
  assume "is_chain st this c" "k < length c"
    "\<forall>m<k. props (st (c ! m)) name = None \<and> map_of (lazyProps (st (c ! m))) name = None"
  then show "map_option fst (Get H st this name) = map_option fst (Get H st (c ! k) name)"
    by (rule Get_skips_levels)
next
  assume "templateProps (st this) = None"
  with assms show "Get H st this name = Some (Inr (None, st), [Call_Get this])"
    by (intro Get_miss)
qed

theorem Get_delegates_to_template_witness:
  "map_option fst (Get H0 three_tables 2 ''Color'')
     = map_option fst (Get H0 three_tables 0 ''Color'')
   \<and> Get H0 three_tables 2 ''Color''
     = map_option (nested_in (Call_Get 2)) (Get H0 three_tables 1 ''Color'')"
proof -
  have a: "props (three_tables 2) ''Color'' = None"
    and b: "map_of (lazyProps (three_tables 2)) ''Color'' = None"
    by (simp_all add: example_defs)
  note inst = Get_delegates_to_template [of three_tables 2 "''Color''" H0, OF a b]
  have t: "templateProps (three_tables 2) = Some 1" by (simp add: example_defs)
  have "\<forall>m<2. props (three_tables ([2, 1, 0] ! m)) ''Color'' = None
            \<and> map_of (lazyProps (three_tables ([2, 1, 0] ! m))) ''Color'' = None"
    by (simp add: example_defs less_Suc_eq numeral_2_eq_2)
  with inst chain_three_tables
  have "map_option fst (Get H0 three_tables 2 ''Color'')
       = map_option fst (Get H0 three_tables ([2, 1, 0] ! 2) ''Color'')"
    by (metis length_Cons lessI list.size(3) numeral_2_eq_2)
  moreover from inst t have "Get H0 three_tables 2 ''Color''
     = map_option (nested_in (Call_Get 2)) (Get H0 three_tables 1 ''Color'')"
    by blast
  ultimately show ?thesis by simp
qed

lemma visited_prefix: "visited st name c = take (length (visited st name c)) c"
  by (induction c) auto

lemma visited_length: "length (visited st name c) \<le> length c"
  by (induction c) auto

lemma visited_nonempty: "c \<noteq> [] \<Longrightarrow> visited st name c \<noteq> []"
  by (cases c) auto

lemma visited_all:
  "\<forall>t \<in> set c. props (st t) name = None \<and> map_of (lazyProps (st t)) name = None
   \<Longrightarrow> visited st name c = c"
  by (induction c) auto

text \<open>
  C8, as amended. On a finite template chain \<open>Get\<close> returns or throws (it does not run
  forever); it activates \<open>Get\<close> once on each level it visits, in the order of the chain,
  from the table itself up to the first level that has the name, or up to the end of the
  chain when no level has it; no table occurs twice in the chain. The activations are
  nested, so the call stack grows by one frame for each level visited.
\<close>

theorem Get_terminates_on_chain:
  assumes "is_chain st this c"
  shows "\<exists>out evs. Get H st this name = Some (out, evs)
    \<and> get_calls evs = visited st name c
    \<and> visited st name c = take (frames evs) c
    \<and> 0 < frames evs \<and> frames evs \<le> length c
    \<and> distinct c
    \<and> ((\<forall>t \<in> set c. props (st t) name = None \<and> map_of (lazyProps (st t)) name = None)
        \<longrightarrow> frames evs = length c)"
proof -
  from Get_chain[OF assms] obtain out evs where
    g: "Get H st this name = Some (out, evs)" and v: "get_calls evs = visited st name c"
    by blast
  from assms have "c \<noteq> []" by (cases c) auto
  then have "0 < frames evs"
    using visited_nonempty[of c st name] by (simp add: frames_def v)
  moreover have "visited st name c = take (frames evs) c"
    using visited_prefix[of st name c] by (simp add: frames_def v)
  moreover have "frames evs \<le> length c"
    by (simp add: frames_def v visited_length)
  moreover have "frames evs = length c"
    if "\<forall>t \<in> set c. props (st t) name = None \<and> map_of (lazyProps (st t)) name = None"
    using visited_all[OF that] by (simp add: frames_def v)
  ultimately show ?thesis
    using g v is_chain_distinct[OF assms] by blast
qed

theorem Get_terminates_on_chain_witness:
  "\<exists>out evs. Get H0 three_tables 2 ''Color'' = Some (out, evs)
     \<and> get_calls evs = visited three_tables ''Color'' [2, 1, 0]
     \<and> visited three_tables ''Color'' [2, 1, 0] = [2, 1, 0]"
proof -
  have "visited three_tables ''Color'' [2, 1, 0] = [2, 1, 0]"
    by (simp add: example_defs)
  with Get_terminates_on_chain [OF chain_three_tables, of H0 "''Color''"]
  show ?thesis by blast
qed

text \<open>
  C8 as stated fails in its last part: the lookup is not a loop. On a chain of three
  tables that all lack the name, \<open>Get\<close> is active three times at once.
\<close>

theorem Get_recursion_counterexample:
  "is_chain three_tables 2 [2, 1, 0]
   \<and> Get H0 three_tables 2 ''Missing''
     = Some (Inr (None, three_tables), [Call_Get 2, Call_Get 1, Call_Get 0])
   \<and> frames [Call_Get 2, Call_Get 1, Call_Get 0] = 3"
  using chain_three_tables Get_Missing_2 by (simp add: frames_def)

text \<open>
  C9. When the record of a name in the table's own raw index decodes to empty, the first
  \<open>Get\<close> returns empty after one decode, writes the empty result into the cache of this
  table and touches no other table; the trace has no activation of \<open>Get\<close> on a template.
  Every later \<open>Get\<close> finds the empty entry, in the store the first call left and in
  any store where the entry still stands: it returns empty without decoding, without an
  activation on a template, and leaves the store as it is.
\<close>

theorem Get_empty_decode_is_final:
  assumes "map_of (lazyProps (st this)) name = Some el"
    and "ReadTypedProperty H el = Inr None"
    and "props (st this) name = None"
  shows "Get H st this name
       = Some (Inr (None, st(this := (st this)\<lparr>props := (props (st this))(name \<mapsto> None)\<rparr>)),
               [Call_Get this, Call_ReadTypedProperty this name])
    \<and> Get H (st(this := (st this)\<lparr>props := (props (st this))(name \<mapsto> None)\<rparr>)) this name
       = Some (Inr (None, st(this := (st this)\<lparr>props := (props (st this))(name \<mapsto> None)\<rparr>)),
               [Call_Get this])
    \<and> (\<forall>later. props (later this) name = Some None \<longrightarrow>
          Get H later this name = Some (Inr (None, later), [Call_Get this]))"
proof (intro conjI allI impI)
  have "Get H st this name =
    Some (case ReadTypedProperty H el of
            Inl err \<Rightarrow> (Inl err, [Call_Get this, Call_ReadTypedProperty this name])
          | Inr p \<Rightarrow>
              (Inr (p, st(this := (st this)\<lparr>props := (props (st this))(name \<mapsto> p)\<rparr>)),
               [Call_Get this, Call_ReadTypedProperty this name]))"
    by (rule Get_decode) (fact assms)+
  then show "Get H st this name
       = Some (Inr (None, st(this := (st this)\<lparr>props := (props (st this))(name \<mapsto> None)\<rparr>)),
               [Call_Get this, Call_ReadTypedProperty this name])"
    by (simp add: assms(2))
  show "Get H (st(this := (st this)\<lparr>props := (props (st this))(name \<mapsto> None)\<rparr>)) this name
       = Some (Inr (None, st(this := (st this)\<lparr>props := (props (st this))(name \<mapsto> None)\<rparr>)),
               [Call_Get this])"
    by (rule Get_hit) simp
next
  fix later :: "'a store"
  assume "props (later this) name = Some None"
  then show "Get H later this name = Some (Inr (None, later), [Call_Get this])"
    by (rule Get_hit)
qed

theorem Get_empty_decode_is_final_witness:
  "Get H0 three_tables 1 ''Custom''
     = Some (Inr (None, three_tables(1 := (three_tables 1)
                    \<lparr>props := (props (three_tables 1))(''Custom'' \<mapsto> None)\<rparr>)),
             [Call_Get 1, Call_ReadTypedProperty 1 ''Custom''])
   \<and> Get H0 three_tables 0 ''Custom''
     = Some (Inr (Some (TypedProperty_string ''hello''),
                  three_tables(0 := (three_tables 0)
                    \<lparr>props := (props (three_tables 0))
                       (''Custom'' \<mapsto> Some (TypedProperty_string ''hello''))\<rparr>)),
             [Call_Get 0, Call_ReadTypedProperty 0 ''Custom''])"
proof
  have a: "map_of (lazyProps (three_tables 1)) ''Custom''
        = Some (P_text [''Custom'', ''MyType'', [], ''A''])"
    and b: "props (three_tables 1) ''Custom'' = None"
    by (simp_all add: example_defs)
  from Get_empty_decode_is_final [of three_tables 1 "''Custom''" _ H0, OF a decode_Custom b]
  show "Get H0 three_tables 1 ''Custom''
     = Some (Inr (None, three_tables(1 := (three_tables 1)
                    \<lparr>props := (props (three_tables 1))(''Custom'' \<mapsto> None)\<rparr>)),
             [Call_Get 1, Call_ReadTypedProperty 1 ''Custom''])"
    by blast
  have "Get H0 three_tables 0 ''Custom'' =
    Some (case ReadTypedProperty H0 (P_text [''Custom'', ''KString'', [], ''A'', ''hello'']) of
            Inl err \<Rightarrow> (Inl err, [Call_Get 0, Call_ReadTypedProperty 0 ''Custom''])
          | Inr p \<Rightarrow>
              (Inr (p, three_tables(0 := (three_tables 0)
                      \<lparr>props := (props (three_tables 0))(''Custom'' \<mapsto> p)\<rparr>)),
               [Call_Get 0, Call_ReadTypedProperty 0 ''Custom'']))"
    by (rule Get_decode) (simp_all add: example_defs)
  then show "Get H0 three_tables 0 ''Custom''
     = Some (Inr (Some (TypedProperty_string ''hello''),
                  three_tables(0 := (three_tables 0)
                    \<lparr>props := (props (three_tables 0))
                       (''Custom'' \<mapsto> Some (TypedProperty_string ''hello''))\<rparr>)),
             [Call_Get 0, Call_ReadTypedProperty 0 ''Custom''])"
    unfolding decode_Custom_template by simp
qed

text \<open>
  C4. An element with key \<open>P\<close> whose type tag stands in a row of the decode table and
  that has at least two tokens but fewer than the row's minimum throws a
  \<open>DeadlyImportError\<close> made of the type tag and of the location of token 1: its offset
  when the token is binary, its line otherwise. \<open>Get\<close> does not catch it: the call that
  decodes the record throws it, and so does the call on a table that delegates to that
  one.
\<close>

theorem decode_error_propagates:
  assumes "StringContents (KeyToken e) = ''P''"
    and "(tags, n, sh) \<in> set spec_decode_table"
    and "ParseTokenAsString H (Tokens e ! 1) \<in> set tags"
    and "2 \<le> length (Tokens e)"
    and "length (Tokens e) < n"
  shows "ReadTypedProperty H e
       = Inl (spec_decode_error (ParseTokenAsString H (Tokens e ! 1)) (Tokens e ! 1))
    \<and> (\<forall>st this name.
          props (st this) name = None \<longrightarrow> map_of (lazyProps (st this)) name = Some e \<longrightarrow>
          Get H st this name
            = Some (Inl (spec_decode_error (ParseTokenAsString H (Tokens e ! 1)) (Tokens e ! 1)),
                    [Call_Get this, Call_ReadTypedProperty this name])
          \<and> (\<forall>child.
                props (st child) name = None \<longrightarrow> map_of (lazyProps (st child)) name = None \<longrightarrow>
                templateProps (st child) = Some this \<longrightarrow>
                Get H st child name
                  = Some (Inl (spec_decode_error (ParseTokenAsString H (Tokens e ! 1))
                                 (Tokens e ! 1)),
                          [Call_Get child, Call_Get this, Call_ReadTypedProperty this name])))"
proof -
  let ?err = "spec_decode_error (ParseTokenAsString H (Tokens e ! 1)) (Tokens e ! 1)"
  have r: "ReadTypedProperty H e = Inl ?err"
    using assms by (rule ReadTypedProperty_too_few_tokens)
  have g: "Get H st this name = Some (Inl ?err, [Call_Get this, Call_ReadTypedProperty this name])"
    if "props (st this) name = None" "map_of (lazyProps (st this)) name = Some e"
    for st :: "'a store" and this name
  proof -
    have "Get H st this name =
      Some (case ReadTypedProperty H e of
              Inl err \<Rightarrow> (Inl err, [Call_Get this, Call_ReadTypedProperty this name])
            | Inr p \<Rightarrow>
                (Inr (p, st(this := (st this)\<lparr>props := (props (st this))(name \<mapsto> p)\<rparr>)),
                 [Call_Get this, Call_ReadTypedProperty this name]))"
      by (rule Get_decode) (fact that)+
    then show ?thesis by (simp add: r)
  qed
  have c: "Get H st child name
      = Some (Inl ?err, [Call_Get child, Call_Get this, Call_ReadTypedProperty this name])"
    if "props (st this) name = None" "map_of (lazyProps (st this)) name = Some e"
      "props (st child) name = None" "map_of (lazyProps (st child)) name = None"
      "templateProps (st child) = Some this"
    for st :: "'a store" and this child name
  proof -
    have "Get H st child name = map_option (nested_in (Call_Get child)) (Get H st this name)"
      by (rule Get_delegate) (fact that)+
    moreover have "Get H st this name
        = Some (Inl ?err, [Call_Get this, Call_ReadTypedProperty this name])"
      by (rule g) (fact that)+
    ultimately show ?thesis by (simp add: nested_in_def)
  qed
  from r g c show ?thesis by blast
qed

theorem decode_error_propagates_witness:
  "Get H0 three_tables 2 ''Broken''
     = Some (Inl (DeadlyImportError
                    [MsgText ''Not enough tokens for property of type '', MsgText ''int'',
                     MsgText '' at line '', MsgNumber 1]),
             [Call_Get 2, Call_ReadTypedProperty 2 ''Broken''])"
proof -
  let ?e = "P_text [''Broken'', ''int'', [], ''A'']"
  have 1: "StringContents (KeyToken ?e) = ''P''"
    and 2: "([''int'', ''Int'', ''enum'', ''Enum'', ''Integer''], 5, ShInt32) \<in> set spec_decode_table"
    and 3: "ParseTokenAsString H0 (Tokens ?e ! 1) \<in> set [''int'', ''Int'', ''enum'', ''Enum'', ''Integer'']"
    and 4: "2 \<le> length (Tokens ?e)" and 5: "length (Tokens ?e) < 5"
    by (simp_all add: P_text_def text_token_def H0_def spec_decode_table_def)
  have a: "props (three_tables 2) ''Broken'' = None"
    and b: "map_of (lazyProps (three_tables 2)) ''Broken'' = Some ?e"
    by (simp_all add: example_defs)
  have "spec_decode_error (ParseTokenAsString H0 (Tokens ?e ! 1)) (Tokens ?e ! 1)
      = DeadlyImportError
          [MsgText ''Not enough tokens for property of type '', MsgText ''int'',
           MsgText '' at line '', MsgNumber 1]"
    by (simp add: spec_decode_error_def P_text_def text_token_def H0_def)
  with decode_error_propagates [OF 1 2 3 4 5] a b show ?thesis
    by metis
qed

section \<open>Enumeration of the unparsed properties\<close>

lemma unparsed_loop_returns:
  assumes "distinct (map fst xs)"
    and "\<forall>(n, el) \<in> set xs. ps n = None \<longrightarrow> (\<exists>p. ReadTypedProperty H el = Inr p)"
  shows "unparsed_loop H this ps xs result evs =
    (Inr (\<lambda>n. case map_of xs n of
                None \<Rightarrow> result n
              | Some el \<Rightarrow>
                  if ps n \<noteq> None then result n
                  else (case ReadTypedProperty H el of Inr (Some prop) \<Rightarrow> Some prop
                        | _ \<Rightarrow> result n)),
     evs @ map (Call_ReadTypedProperty this) [n \<leftarrow> map fst xs. ps n = None])"
  using assms
proof (induction xs arbitrary: result evs)
  case Nil
  then show ?case by simp
next
  case (Cons x xs)
  obtain name el where x: "x = (name, el)" by (cases x)
  from Cons.prems x have d: "distinct (map fst xs)" and absent: "map_of xs name = None"
    and ok: "\<forall>(n, el) \<in> set xs. ps n = None \<longrightarrow> (\<exists>p. ReadTypedProperty H el = Inr p)"
    and here: "ps name = None \<longrightarrow> (\<exists>p. ReadTypedProperty H el = Inr p)"
    by (auto simp: map_of_eq_None_iff)
  note hyp = Cons.IH[OF d ok]
  show ?case
  proof (cases "ps name = None")
    case False
    then show ?thesis
      unfolding x by (auto simp: hyp absent intro!: ext split: option.splits sum.splits)
  next
    case True
    with here obtain p where p: "ReadTypedProperty H el = Inr p" by blast
    show ?thesis
    proof (cases p)
      case None
      with p True show ?thesis
        unfolding x by (auto simp: hyp absent intro!: ext split: option.splits sum.splits)
    next
      case (Some v)
      with p True show ?thesis
        unfolding x by (auto simp: hyp absent intro!: ext split: option.splits sum.splits)
    qed
  qed
qed

lemma unparsed_loop_raises:
  assumes "(n, el) \<in> set xs" and "ps n = None" and "ReadTypedProperty H el = Inl err"
  shows "\<exists>n' el' err' evs'. (n', el') \<in> set xs \<and> ps n' = None
           \<and> ReadTypedProperty H el' = Inl err'
           \<and> unparsed_loop H this ps xs result evs = (Inl err', evs')"
  using assms
proof (induction xs arbitrary: result evs)
  case Nil
  then show ?case by simp
next
  case (Cons x xs)
  obtain name e where x: "x = (name, e)" by (cases x)
  show ?case
  proof (cases "ps name = None \<and> (\<exists>err'. ReadTypedProperty H e = Inl err')")
    case True
    then obtain err' where "ps name = None" "ReadTypedProperty H e = Inl err'" by blast
    then show ?thesis
      unfolding x
      by (intro exI[of _ name] exI[of _ e] exI[of _ err']
            exI[of _ "evs @ [Call_ReadTypedProperty this name]"]) simp
  next
    case False
    with Cons.prems x have in_rest: "(n, el) \<in> set xs" by auto
    from False have skip:
      "unparsed_loop H this ps (x # xs) result evs
        = unparsed_loop H this ps xs
            (if ps name \<noteq> None then result
             else case ReadTypedProperty H e of Inr (Some v) \<Rightarrow> result(name \<mapsto> v)
                  | _ \<Rightarrow> result)
            (if ps name \<noteq> None then evs else evs @ [Call_ReadTypedProperty this name])"
      unfolding x by (auto split: sum.splits option.splits)
    from Cons.IH[OF in_rest Cons.prems(2,3)] show ?thesis
      unfolding skip by (metis list.set_intros(2))
  qed
qed

text \<open>
  C6, as amended. For a table whose pending records (those of names without cache
  entry) all decode without throwing, \<open>GetUnparsedProperties\<close> decodes each pending
  record once, in the order of the raw index, and returns the mapping of the pending
  names that decode to a value, each with that value; names that decode to empty are
  left out. When a pending record throws, the call throws the error of a pending record's
  decode. The call returns no store:
  it assigns neither to \<open>props\<close> nor to \<open>lazyProps\<close>, so a later \<open>Get\<close> or a second
  \<open>GetUnparsedProperties\<close> runs on the same store, and decodes the same records again.
\<close>

theorem GetUnparsedProperties_spec:
  assumes "distinct (map fst (lazyProps (st this)))"
  shows "((\<forall>(n, el) \<in> set (lazyProps (st this)).
            props (st this) n = None \<longrightarrow> (\<exists>p. ReadTypedProperty H el = Inr p)) \<longrightarrow>
          GetUnparsedProperties H st this
            = (Inr (unparsed_spec H (st this)),
               map (Call_ReadTypedProperty this)
                 [n \<leftarrow> map fst (lazyProps (st this)). props (st this) n = None]))
    \<and> ((\<exists>(n, el) \<in> set (lazyProps (st this)).
            props (st this) n = None \<and> (\<exists>err. ReadTypedProperty H el = Inl err)) \<longrightarrow>
          (\<exists>n el err evs. (n, el) \<in> set (lazyProps (st this)) \<and> props (st this) n = None
             \<and> ReadTypedProperty H el = Inl err
             \<and> GetUnparsedProperties H st this = (Inl err, evs)))"
proof (intro conjI impI)
  assume ok: "\<forall>(n, el) \<in> set (lazyProps (st this)).
            props (st this) n = None \<longrightarrow> (\<exists>p. ReadTypedProperty H el = Inr p)"
  have "(\<lambda>n. case map_of (lazyProps (st this)) n of
               None \<Rightarrow> None
             | Some el \<Rightarrow>
                 if props (st this) n \<noteq> None then None
                 else (case ReadTypedProperty H el of Inr (Some v) \<Rightarrow> Some v | _ \<Rightarrow> None))
        = unparsed_spec H (st this)"
    by (simp add: unparsed_spec_def)
  with unparsed_loop_returns[OF assms ok, of this Map.empty "[]"]
  show "GetUnparsedProperties H st this
            = (Inr (unparsed_spec H (st this)),
               map (Call_ReadTypedProperty this)
                 [n \<leftarrow> map fst (lazyProps (st this)). props (st this) n = None])"
    by (simp add: GetUnparsedProperties_def)
next
  assume "\<exists>(n, el) \<in> set (lazyProps (st this)).
            props (st this) n = None \<and> (\<exists>err. ReadTypedProperty H el = Inl err)"
  then obtain n el err where "(n, el) \<in> set (lazyProps (st this))"
    "props (st this) n = None" "ReadTypedProperty H el = Inl err"
    by auto
  then show "\<exists>n el err evs. (n, el) \<in> set (lazyProps (st this)) \<and> props (st this) n = None
             \<and> ReadTypedProperty H el = Inl err
             \<and> GetUnparsedProperties H st this = (Inl err, evs)"
    unfolding GetUnparsedProperties_def by (rule unparsed_loop_raises)
qed

theorem GetUnparsedProperties_spec_witness:
  "GetUnparsedProperties H0 three_tables 0
     = (Inr (unparsed_spec H0 (three_tables 0)),
        [Call_ReadTypedProperty 0 ''Color'', Call_ReadTypedProperty 0 ''Custom''])
   \<and> unparsed_spec H0 (three_tables 0) ''Color''
     = Some (TypedProperty_aiVector3D ''0.8'' ''0.5'' ''0.2'')
   \<and> unparsed_spec H0 (three_tables 1) ''Custom'' = None"
proof -
  have d: "distinct (map fst (lazyProps (three_tables 0)))"
    by (simp add: example_defs)
  have ok: "\<forall>(n, el) \<in> set (lazyProps (three_tables 0)).
            props (three_tables 0) n = None \<longrightarrow> (\<exists>p. ReadTypedProperty H0 el = Inr p)"
    by (simp add: example_defs decode_Color decode_Custom_template)
  have "[n \<leftarrow> map fst (lazyProps (three_tables 0)). props (three_tables 0) n = None]
      = [''Color'', ''Custom'']"
    by (simp add: example_defs)
  moreover have "unparsed_spec H0 (three_tables 0) ''Color''
     = Some (TypedProperty_aiVector3D ''0.8'' ''0.5'' ''0.2'')"
    by (simp add: unparsed_spec_def example_defs decode_Color)
  moreover have "unparsed_spec H0 (three_tables 1) ''Custom'' = None"
    by (simp add: unparsed_spec_def example_defs decode_Custom)
  ultimately show ?thesis
    using GetUnparsedProperties_spec [of three_tables 0 H0, OF d] ok by simp
qed

text \<open>
  C6 as stated fails for a table with a pending record that throws: table 2 has the
  record \<open>Broken\<close>, an \<open>int\<close> with four tokens, and the call throws instead of
  returning a mapping.
\<close>

theorem GetUnparsedProperties_raises_counterexample:
  "GetUnparsedProperties H0 three_tables 2
     = (Inl (DeadlyImportError
               [MsgText ''Not enough tokens for property of type '', MsgText ''int'',
                MsgText '' at line '', MsgNumber 1]),
        [Call_ReadTypedProperty 2 ''Broken''])"
  by (simp add: GetUnparsedProperties_def example_defs decode_Broken)

section \<open>Construction\<close>

lemma PeekPropertyName_P:
  "StringContents (KeyToken e) = ''P'' \<Longrightarrow> PeekPropertyName H e = Inr (property_name H e)"
  by (simp add: PeekPropertyName_def property_name_def and_then_def token_at_def Let_def)

lemma map_add_shadowed:
  "m2 name = Some old \<Longrightarrow> m1(name \<mapsto> v) ++ m2 = m1 ++ m2"
  by (rule ext) (auto simp: map_add_def split: option.split)

lemma scan_elements_spec:
  assumes "\<forall>(key, e) \<in> set elems. StringContents (KeyToken e) = key"
  shows "\<exists>new ws. scan_elements H elems (lazy, warnings) = Inr (lazy @ new, warnings @ ws)
    \<and> map_of (lazy @ new) = map_of (lazy @ usable H elems)
    \<and> (distinct (map fst lazy) \<longrightarrow> distinct (map fst (lazy @ new)))
    \<and> set new \<subseteq> set (usable H elems)
    \<and> [e. (m, e) \<leftarrow> ws, m = ''expected only P elements in property table'']
        = [e. (key, e) \<leftarrow> elems, key \<noteq> ''P'']
    \<and> [e. (m, e) \<leftarrow> ws, m = ''could not read property name'']
        = [e. (key, e) \<leftarrow> elems, key = ''P'', property_name H e = []]
    \<and> [w \<leftarrow> ws. take 9 (fst w) = ''duplicate'']
        = map duplicate_warning (repeated (fst ` set lazy) (usable H elems))
    \<and> length ws + length new = length elems"
  using assms
proof (induction elems arbitrary: lazy warnings)
  case Nil
  then show ?case by (simp add: usable_def)
next
  case (Cons x elems)
  obtain key v where x: "x = (key, v)" by (cases x)
  from Cons.prems x have wf: "\<forall>(key, e) \<in> set elems. StringContents (KeyToken e) = key"
    and kv: "StringContents (KeyToken v) = key" by auto
  note ih = Cons.IH[OF wf]
  show ?case
  proof (cases "key = ''P''")
    case False
    from ih[of lazy "warnings @ [(''expected only P elements in property table'', v)]"]
    obtain new ws where
      "scan_elements H elems (lazy, warnings @ [(''expected only P elements in property table'', v)])
         = Inr (lazy @ new, (warnings @ [(''expected only P elements in property table'', v)]) @ ws)"
      and r: "map_of (lazy @ new) = map_of (lazy @ usable H elems)"
        "distinct (map fst lazy) \<longrightarrow> distinct (map fst (lazy @ new))"
        "set new \<subseteq> set (usable H elems)"
        "[e. (m, e) \<leftarrow> ws, m = ''expected only P elements in property table'']
          = [e. (key, e) \<leftarrow> elems, key \<noteq> ''P'']"
        "[e. (m, e) \<leftarrow> ws, m = ''could not read property name'']
          = [e. (key, e) \<leftarrow> elems, key = ''P'', property_name H e = []]"
        "[w \<leftarrow> ws. take 9 (fst w) = ''duplicate'']
          = map duplicate_warning (repeated (fst ` set lazy) (usable H elems))"
        "length ws + length new = length elems"
      by blast
    with False show ?thesis
      unfolding x
      apply -
      apply (rule exI[of _ new], rule exI[of _ "(''expected only P elements in property table'', v) # ws"])
      apply (simp add: usable_def)
      done
  next
    case True
    with kv have peek: "PeekPropertyName H v = Inr (property_name H v)"
      by (simp add: PeekPropertyName_P)
    show ?thesis
    proof (cases "property_name H v = []")
      case True
      note noname = this
      from ih[of lazy "warnings @ [(''could not read property name'', v)]"]
      obtain new ws where
        "scan_elements H elems (lazy, warnings @ [(''could not read property name'', v)])
           = Inr (lazy @ new, (warnings @ [(''could not read property name'', v)]) @ ws)"
        and r: "map_of (lazy @ new) = map_of (lazy @ usable H elems)"
          "distinct (map fst lazy) \<longrightarrow> distinct (map fst (lazy @ new))"
          "set new \<subseteq> set (usable H elems)"
          "[e. (m, e) \<leftarrow> ws, m = ''expected only P elements in property table'']
            = [e. (key, e) \<leftarrow> elems, key \<noteq> ''P'']"
          "[e. (m, e) \<leftarrow> ws, m = ''could not read property name'']
            = [e. (key, e) \<leftarrow> elems, key = ''P'', property_name H e = []]"
          "[w \<leftarrow> ws. take 9 (fst w) = ''duplicate'']
            = map duplicate_warning (repeated (fst ` set lazy) (usable H elems))"
          "length ws + length new = length elems"
        by blast
      with \<open>key = ''P''\<close> noname peek show ?thesis
        unfolding x
        apply -
        apply (rule exI[of _ new], rule exI[of _ "(''could not read property name'', v) # ws"])
        apply (simp add: usable_def)
        done
    next
      case False
      note named = this
      show ?thesis
      proof (cases "map_of lazy (property_name H v)")
        case (Some old)
        let ?w = "(''duplicate property name, will hide previous value: '' @ property_name H v, v)"
        from Some have seen: "property_name H v \<in> fst ` set lazy"
          by (metis map_of_eq_None_iff option.distinct(1))
        from ih[of lazy "warnings @ [?w]"]
        obtain new ws where
          "scan_elements H elems (lazy, warnings @ [?w]) = Inr (lazy @ new, (warnings @ [?w]) @ ws)"
          and r: "map_of (lazy @ new) = map_of (lazy @ usable H elems)"
            "distinct (map fst lazy) \<longrightarrow> distinct (map fst (lazy @ new))"
            "set new \<subseteq> set (usable H elems)"
            "[e. (m, e) \<leftarrow> ws, m = ''expected only P elements in property table'']
              = [e. (key, e) \<leftarrow> elems, key \<noteq> ''P'']"
            "[e. (m, e) \<leftarrow> ws, m = ''could not read property name'']
              = [e. (key, e) \<leftarrow> elems, key = ''P'', property_name H e = []]"
            "[w \<leftarrow> ws. take 9 (fst w) = ''duplicate'']
              = map duplicate_warning (repeated (fst ` set lazy) (usable H elems))"
            "length ws + length new = length elems"
          by blast
        with \<open>key = ''P''\<close> named peek Some seen show ?thesis
          unfolding x
          apply -
          apply (rule exI[of _ new], rule exI[of _ "?w # ws"])
          apply (simp add: usable_def duplicate_warning_def map_add_shadowed)
          apply blast
          done
      next
        case None
        let ?n = "property_name H v"
        from None have unseen: "?n \<notin> fst ` set lazy"
          by (simp add: map_of_eq_None_iff)
        from ih[of "lazy @ [(?n, v)]" warnings]
        obtain new ws where
          "scan_elements H elems (lazy @ [(?n, v)], warnings) = Inr ((lazy @ [(?n, v)]) @ new, warnings @ ws)"
          and r: "map_of ((lazy @ [(?n, v)]) @ new) = map_of ((lazy @ [(?n, v)]) @ usable H elems)"
            "distinct (map fst (lazy @ [(?n, v)])) \<longrightarrow> distinct (map fst ((lazy @ [(?n, v)]) @ new))"
            "set new \<subseteq> set (usable H elems)"
            "[e. (m, e) \<leftarrow> ws, m = ''expected only P elements in property table'']
              = [e. (key, e) \<leftarrow> elems, key \<noteq> ''P'']"
            "[e. (m, e) \<leftarrow> ws, m = ''could not read property name'']
              = [e. (key, e) \<leftarrow> elems, key = ''P'', property_name H e = []]"
            "[w \<leftarrow> ws. take 9 (fst w) = ''duplicate'']
              = map duplicate_warning (repeated (fst ` set (lazy @ [(?n, v)])) (usable H elems))"
            "length ws + length new = length elems"
          by blast
        with \<open>key = ''P''\<close> named peek None unseen show ?thesis
          unfolding x
          apply -
          apply (rule exI[of _ "(?n, v) # new"], rule exI[of _ ws])
          apply (auto simp: usable_def duplicate_warning_def)
          done
      qed
    qed
  qed
qed

text \<open>
  C7. When the node has a scope, whose entries carry the key of their element,
  construction returns a table and a list of warnings. The raw index has one entry for
  each name of a usable record (a \<open>P\<close> record with at least four tokens and a non-empty
  name), bound to the first usable record of that name. Each child that is not a \<open>P\<close>
  gets one warning, each \<open>P\<close> record without usable name one warning, each usable record
  whose name an earlier one has one warning that names it, and there are no other
  warnings: every child is either indexed or warned about. The cache starts empty.
\<close>

theorem PropertyTable_new_spec:
  assumes "GetRequiredScope H node = Inr elems"
    and "\<forall>(key, e) \<in> set elems. StringContents (KeyToken e) = key"
  shows "\<exists>t warnings. PropertyTable_new H node tp = Inr (t, warnings)
    \<and> map_of (lazyProps t) = map_of (usable H elems)
    \<and> distinct (map fst (lazyProps t))
    \<and> set (lazyProps t) \<subseteq> set (usable H elems)
    \<and> props t = Map.empty \<and> templateProps t = tp \<and> element t = node
    \<and> [e. (m, e) \<leftarrow> warnings, m = ''expected only P elements in property table'']
        = [e. (key, e) \<leftarrow> elems, key \<noteq> ''P'']
    \<and> [e. (m, e) \<leftarrow> warnings, m = ''could not read property name'']
        = [e. (key, e) \<leftarrow> elems, key = ''P'', property_name H e = []]
    \<and> [w \<leftarrow> warnings. take 9 (fst w) = ''duplicate'']
        = map duplicate_warning (repeated {} (usable H elems))
    \<and> length warnings + length (lazyProps t) = length elems"
proof -
  from scan_elements_spec[OF assms(2), of H "[]" "[]"] obtain new ws where
    s: "scan_elements H elems ([], []) = Inr (new, ws)"
    and r: "map_of new = map_of (usable H elems)"
      "distinct (map fst new)"
      "set new \<subseteq> set (usable H elems)"
      "[e. (m, e) \<leftarrow> ws, m = ''expected only P elements in property table'']
        = [e. (key, e) \<leftarrow> elems, key \<noteq> ''P'']"
      "[e. (m, e) \<leftarrow> ws, m = ''could not read property name'']
        = [e. (key, e) \<leftarrow> elems, key = ''P'', property_name H e = []]"
      "[w \<leftarrow> ws. take 9 (fst w) = ''duplicate'']
        = map duplicate_warning (repeated {} (usable H elems))"
      "length ws + length new = length elems"
    by auto
  let ?t = "\<lparr>lazyProps = new, props = Map.empty, templateProps = tp, element = node\<rparr>"
  have "PropertyTable_new H node tp = Inr (?t, ws)"
    by (simp add: PropertyTable_new_def assms(1) s)
  with r show ?thesis
    apply -
    apply (rule exI[of _ ?t], rule exI[of _ ws])
    apply simp
    done
qed

theorem PropertyTable_new_spec_witness:
  "PropertyTable_new H1 node0 None
   = Inr (\<lparr>lazyProps =
            [(''Color'', P_text [''Color'', ''ColorRGB'', [], ''A'', ''0.8'', ''0.5'', ''0.2''])],
          props = Map.empty, templateProps = None, element = node0\<rparr>,
          [(''expected only P elements in property table'',
            \<lparr>KeyToken = text_token ''Q'' 2, Tokens = []\<rparr>),
           (''could not read property name'', P_text [''Short'', ''int'']),
           (''duplicate property name, will hide previous value: Color'',
            P_text [''Color'', ''ColorRGB'', [], ''A'', ''0'', ''0'', ''0''])])
   \<and> map_of (usable H1 children0) ''Color''
     = Some (P_text [''Color'', ''ColorRGB'', [], ''A'', ''0.8'', ''0.5'', ''0.2''])"
proof -
  have a: "GetRequiredScope H1 node0 = Inr children0"
    by (simp add: H1_def)
  have b: "\<forall>(key, e) \<in> set children0. StringContents (KeyToken e) = key"
    by (simp add: children0_def P_text_def text_token_def)
  have c: "PropertyTable_new H1 node0 None
   = Inr (\<lparr>lazyProps =
            [(''Color'', P_text [''Color'', ''ColorRGB'', [], ''A'', ''0.8'', ''0.5'', ''0.2''])],
          props = Map.empty, templateProps = None, element = node0\<rparr>,
          [(''expected only P elements in property table'',
            \<lparr>KeyToken = text_token ''Q'' 2, Tokens = []\<rparr>),
           (''could not read property name'', P_text [''Short'', ''int'']),
           (''duplicate property name, will hide previous value: Color'',
            P_text [''Color'', ''ColorRGB'', [], ''A'', ''0'', ''0'', ''0''])])"
    by (simp add: PropertyTable_new_def a children0_def PeekPropertyName_def and_then_def
        token_at_def P_text_def text_token_def H1_def H0_def)
  from PropertyTable_new_spec [OF a b, of None] c
  have "map_of [(''Color'', P_text [''Color'', ''ColorRGB'', [], ''A'', ''0.8'', ''0.5'', ''0.2''])]
      = map_of (usable H1 children0)"
    by auto
  then have "map_of (usable H1 children0) ''Color''
     = Some (P_text [''Color'', ''ColorRGB'', [], ''A'', ''0.8'', ''0.5'', ''0.2''])"
    by (metis map_of_Cons_code(2))
  with c show ?thesis by simp
qed

end
